theory Spec2Isabelle
  imports Complex_Main
begin

section \<open>JavaScript numbers\<close>

text \<open>
  A JavaScript \<open>number\<close> is modelled by its four kinds of value: not-a-number, the two
  infinities and the finite values. Finite values are real numbers and arithmetic on
  them is exact: rounding to the nearest double, overflow to an infinity and the sign
  of zero are not part of the model. Everything that decides a branch of the program
  (the special values, the comparisons that are false on \<open>NaN\<close>, the guards and the
  clamps) is modelled as ECMAScript defines it. Because of the exact arithmetic, the
  properties proved of the program below are stated as bounds, as tolerances, or as the
  expression the program itself evaluates; none of them is an identity between two
  different arithmetic expressions, which rounding could break.
\<close>

datatype number = NaN | PosInf | NegInf | Fin real

instantiation number :: "{plus, minus, times, inverse, ord}"
begin

fun plus_number :: "number \<Rightarrow> number \<Rightarrow> number" where
  "plus_number NaN y = NaN"
| "plus_number x NaN = NaN"
| "plus_number (Fin a) (Fin b) = Fin (a + b)"
| "plus_number PosInf NegInf = NaN"
| "plus_number NegInf PosInf = NaN"
| "plus_number PosInf y = PosInf"
| "plus_number NegInf y = NegInf"
| "plus_number (Fin a) y = y"

fun minus_number :: "number \<Rightarrow> number \<Rightarrow> number" where
  "minus_number NaN y = NaN"
| "minus_number x NaN = NaN"
| "minus_number (Fin a) (Fin b) = Fin (a - b)"
| "minus_number PosInf PosInf = NaN"
| "minus_number NegInf NegInf = NaN"
| "minus_number PosInf y = PosInf"
| "minus_number NegInf y = NegInf"
| "minus_number (Fin a) PosInf = NegInf"
| "minus_number (Fin a) NegInf = PosInf"

text \<open>An infinity of the sign of \<open>a\<close> times the sign \<open>pos\<close>; \<open>NaN\<close> for \<open>0 * Infinity\<close>.\<close>

definition signed_inf :: "real \<Rightarrow> bool \<Rightarrow> number" where
  "signed_inf a pos =
     (if a = 0 then NaN else if (0 < a) = pos then PosInf else NegInf)"

fun times_number :: "number \<Rightarrow> number \<Rightarrow> number" where
  "times_number NaN y = NaN"
| "times_number x NaN = NaN"
| "times_number (Fin a) (Fin b) = Fin (a * b)"
| "times_number (Fin a) PosInf = signed_inf a True"
| "times_number (Fin a) NegInf = signed_inf a False"
| "times_number PosInf (Fin b) = signed_inf b True"
| "times_number NegInf (Fin b) = signed_inf b False"
| "times_number PosInf PosInf = PosInf"
| "times_number NegInf NegInf = PosInf"
| "times_number PosInf NegInf = NegInf"
| "times_number NegInf PosInf = NegInf"

text \<open>A finite value divided by zero is an infinity (the zero taken as \<open>+0\<close>), \<open>0 / 0\<close> is \<open>NaN\<close>.\<close>

fun divide_number :: "number \<Rightarrow> number \<Rightarrow> number" where
  "divide_number NaN y = NaN"
| "divide_number x NaN = NaN"
| "divide_number (Fin a) (Fin b) = (if b = 0 then signed_inf a True else Fin (a / b))"
| "divide_number (Fin a) y = Fin 0"
| "divide_number PosInf (Fin b) = (if 0 \<le> b then PosInf else NegInf)"
| "divide_number NegInf (Fin b) = (if 0 \<le> b then NegInf else PosInf)"
| "divide_number x y = NaN"

definition inverse_number :: "number \<Rightarrow> number" where
  "inverse_number x = divide (Fin 1) x"

text \<open>The relational operators: every comparison with \<open>NaN\<close> is false.\<close>

fun less_number :: "number \<Rightarrow> number \<Rightarrow> bool" where
  "less_number NaN y = False"
| "less_number x NaN = False"
| "less_number (Fin a) (Fin b) = (a < b)"
| "less_number x NegInf = False"
| "less_number PosInf y = False"
| "less_number NegInf y = True"
| "less_number (Fin a) PosInf = True"

fun less_eq_number :: "number \<Rightarrow> number \<Rightarrow> bool" where
  "less_eq_number NaN y = False"
| "less_eq_number x NaN = False"
| "less_eq_number (Fin a) (Fin b) = (a \<le> b)"
| "less_eq_number NegInf y = True"
| "less_eq_number x PosInf = True"
| "less_eq_number PosInf y = False"
| "less_eq_number (Fin a) NegInf = False"

instance ..

end

text \<open>Strict equality \<open>===\<close> on numbers: false as soon as one side is \<open>NaN\<close>.\<close>

definition strict_eq :: "number \<Rightarrow> number \<Rightarrow> bool" where
  "strict_eq x y = (x \<noteq> NaN \<and> y \<noteq> NaN \<and> x = y)"

text \<open>The remainder operator \<open>%\<close>: the quotient is truncated towards zero.\<close>

definition trunc :: "real \<Rightarrow> int" where
  "trunc x = (if 0 \<le> x then \<lfloor>x\<rfloor> else \<lceil>x\<rceil>)"

fun js_rem :: "number \<Rightarrow> number \<Rightarrow> number" where
  "js_rem (Fin a) (Fin b) = (if b = 0 then NaN else Fin (a - b * of_int (trunc (a / b))))"
| "js_rem (Fin a) PosInf = Fin a"
| "js_rem (Fin a) NegInf = Fin a"
| "js_rem x y = NaN"

definition Number_isNaN :: "number \<Rightarrow> bool" where
  "Number_isNaN x = (x = NaN)"

fun Number_isFinite :: "number \<Rightarrow> bool" where
  "Number_isFinite (Fin a) = True"
| "Number_isFinite x = False"

definition Math_PI :: number where
  "Math_PI = Fin pi"

fun Math_sin :: "number \<Rightarrow> number" where
  "Math_sin (Fin a) = Fin (sin a)"
| "Math_sin x = NaN"

fun Math_cos :: "number \<Rightarrow> number" where
  "Math_cos (Fin a) = Fin (cos a)"
| "Math_cos x = NaN"

fun Math_asin :: "number \<Rightarrow> number" where
  "Math_asin (Fin a) = (if a < - 1 \<or> 1 < a then NaN else Fin (arcsin a))"
| "Math_asin x = NaN"

text \<open>\<open>Math.max\<close> and \<open>Math.min\<close> return \<open>NaN\<close> as soon as one argument is \<open>NaN\<close>.\<close>

definition Math_max :: "number \<Rightarrow> number \<Rightarrow> number" where
  "Math_max x y = (if x = NaN \<or> y = NaN then NaN else if x < y then y else x)"

definition Math_min :: "number \<Rightarrow> number \<Rightarrow> number" where
  "Math_min x y = (if x = NaN \<or> y = NaN then NaN else if y < x then y else x)"

fun Math_floor :: "number \<Rightarrow> number" where
  "Math_floor (Fin a) = Fin (of_int \<lfloor>a\<rfloor>)"
| "Math_floor x = x"

text \<open>\<open>Math.round\<close> rounds to the nearest integer, a tie towards \<open>+Infinity\<close>.\<close>

fun Math_round :: "number \<Rightarrow> number" where
  "Math_round (Fin a) = Fin (of_int \<lfloor>a + 1 / 2\<rfloor>)"
| "Math_round x = x"

section \<open>Dates\<close>

text \<open>
  The built-in \<open>Date\<close> is not part of the repository; it is modelled after ECMA-262,
  section "Date Objects". A date object holds a time value: an integral number of
  milliseconds since 1970-01-01T00:00:00Z of magnitude at most \<open>8.64e15\<close>, or \<open>NaN\<close>
  (an invalid date), here \<open>None\<close>.
\<close>

type_synonym timevalue = "int option"

definition msPerDay :: int where
  "msPerDay = 86400000"

definition Day :: "int \<Rightarrow> int" where
  "Day t = t div msPerDay"

definition DayFromYear :: "int \<Rightarrow> int" where
  "DayFromYear y =
     365 * (y - 1970) + (y - 1969) div 4 - (y - 1901) div 100 + (y - 1601) div 400"

text \<open>
  \<open>YearFromTime(t)\<close> is the largest year \<open>y\<close> with \<open>DayFromYear(y) \<le> Day(t)\<close>. It is
  found by counting up from a year that is not after it: a year has at most 366 days
  and at least 365.
\<close>

function yearUpFrom :: "int \<Rightarrow> int \<Rightarrow> int" where
  "yearUpFrom d y = (if DayFromYear (y + 1) \<le> d then yearUpFrom d (y + 1) else y)"
  by pat_completeness auto

lemma div_succ:
  "1 < n \<Longrightarrow> ((z::int) + 1) div n = z div n + (if z mod n = n - 1 then 1 else 0)"
proof -
  assume n: "1 < n"
  have "(z + 1) div n = z div n + 1 div n + (z mod n + 1 mod n) div n"
    by (rule div_add1_eq)
  also have "1 div n = 0" using n by simp
  also have "1 mod n = 1" using n by simp
  also have "(z mod n + 1) div n = (if z mod n = n - 1 then 1 else 0)"
  proof -
    have "0 \<le> z mod n" "z mod n < n" using n by simp_all
    then show ?thesis by (auto simp: div_pos_pos_trivial)
  qed
  finally show ?thesis by simp
qed

lemma century_year_leap: "(z::int) mod 100 = 99 \<Longrightarrow> (z - 68) mod 4 = 3"
proof -
  assume a: "z mod 100 = 99"
  have "(z mod 100) mod 4 = z mod 4" by (rule mod_mod_cancel) simp
  with a have "z mod 4 = 3" by simp
  moreover have "(z - 68) mod 4 = (z + (- 17) * 4) mod 4" by simp
  moreover have "(z + (- 17) * 4) mod 4 = z mod 4" by (rule mod_mult_self1)
  ultimately show ?thesis by simp
qed

lemma DayFromYear_succ:
  "DayFromYear (y + 1) = DayFromYear y + 365
     + (if (y - 1969) mod 4 = 3 then 1 else 0)
     - (if (y - 1901) mod 100 = 99 then 1 else 0)
     + (if (y - 1601) mod 400 = 399 then 1 else 0)"
proof -
  have e4: "(y + 1 - 1969) div 4 = (y - 1969) div 4 + (if (y - 1969) mod 4 = 3 then 1 else 0)"
    using div_succ [of 4 "y - 1969"] by (simp add: algebra_simps)
  have e100: "(y + 1 - 1901) div 100 = (y - 1901) div 100 + (if (y - 1901) mod 100 = 99 then 1 else 0)"
    using div_succ [of 100 "y - 1901"] by (simp add: algebra_simps)
  have e400: "(y + 1 - 1601) div 400 = (y - 1601) div 400 + (if (y - 1601) mod 400 = 399 then 1 else 0)"
    using div_succ [of 400 "y - 1601"] by (simp add: algebra_simps)
  show ?thesis
    unfolding DayFromYear_def e4 e100 e400 by simp
qed

lemma DayFromYear_step: "DayFromYear y + 365 \<le> DayFromYear (y + 1)"
proof -
  have "(y - 1901) mod 100 = 99 \<Longrightarrow> (y - 1969) mod 4 = 3"
    using century_year_leap [of "y - 1901"] by simp
  then show ?thesis
    unfolding DayFromYear_succ by (simp split: if_splits)
qed

termination yearUpFrom
proof (relation "measure (\<lambda>(d, y). nat (d + 1 - DayFromYear (y + 1)))")
  show "wf (measure (\<lambda>(d, y). nat (d + 1 - DayFromYear (y + 1))))"
    by simp
next
  fix d y :: int
  assume "DayFromYear (y + 1) \<le> d"
  moreover have "DayFromYear (y + 1) + 365 \<le> DayFromYear (y + 1 + 1)"
    by (rule DayFromYear_step)
  ultimately show "((d, y + 1), (d, y)) \<in> measure (\<lambda>(d, y). nat (d + 1 - DayFromYear (y + 1)))"
    by simp
qed

definition YearFromDay :: "int \<Rightarrow> int" where
  "YearFromDay d = yearUpFrom d (1970 + (if 0 \<le> d then d div 366 else d div 365))"

definition YearFromTime :: "int \<Rightarrow> int" where
  "YearFromTime t = YearFromDay (Day t)"

definition HourFromTime :: "int \<Rightarrow> int" where
  "HourFromTime t = (t div 3600000) mod 24"

definition MinFromTime :: "int \<Rightarrow> int" where
  "MinFromTime t = (t div 60000) mod 60"

definition SecFromTime :: "int \<Rightarrow> int" where
  "SecFromTime t = (t div 1000) mod 60"

text \<open>The accessors of a date object return \<open>NaN\<close> on an invalid date.\<close>

definition on_time :: "(int \<Rightarrow> int) \<Rightarrow> timevalue \<Rightarrow> number" where
  "on_time f tv = (case tv of None \<Rightarrow> NaN | Some t \<Rightarrow> Fin (of_int (f t)))"

definition getTime :: "timevalue \<Rightarrow> number" where
  "getTime tv = on_time (\<lambda>t. t) tv"

definition getUTCFullYear :: "timevalue \<Rightarrow> number" where
  "getUTCFullYear tv = on_time YearFromTime tv"

definition getUTCHours :: "timevalue \<Rightarrow> number" where
  "getUTCHours tv = on_time HourFromTime tv"

definition getUTCMinutes :: "timevalue \<Rightarrow> number" where
  "getUTCMinutes tv = on_time MinFromTime tv"

definition getUTCSeconds :: "timevalue \<Rightarrow> number" where
  "getUTCSeconds tv = on_time SecFromTime tv"

text \<open>
  \<open>TimeClip\<close>, applied by \<open>Date.UTC\<close> and by the \<open>Date\<close> constructor: a time that is not
  finite or lies beyond \<open>8.64e15\<close> milliseconds is \<open>NaN\<close>.
\<close>

fun TimeClip :: "number \<Rightarrow> number" where
  "TimeClip (Fin a) = (if 8640000000000000 < \<bar>a\<bar> then NaN else Fin (of_int (trunc a)))"
| "TimeClip x = NaN"

text \<open>\<open>MakeFullYear\<close>: a year from 0 to 99 stands for the year 1900 later.\<close>

definition MakeFullYear :: "int \<Rightarrow> int" where
  "MakeFullYear y = (if 0 \<le> y \<and> y \<le> 99 then 1900 + y else y)"

text \<open>
  \<open>Date.UTC(year, 0, 0)\<close>, the only form the program calls: month index 0 and day 0 of
  the month, which \<open>MakeDay\<close> resolves to the day before January 1 of the year, at
  midnight.
\<close>

fun Date_UTC_0_0 :: "number \<Rightarrow> number" where
  "Date_UTC_0_0 (Fin y) =
     TimeClip (Fin (of_int ((DayFromYear (MakeFullYear (trunc y)) - 1) * msPerDay)))"
| "Date_UTC_0_0 x = NaN"

text \<open>\<open>new Date(value)\<close> for a number: the time value of the new object.\<close>

fun new_Date :: "number \<Rightarrow> timevalue" where
  "new_Date x = (case TimeClip x of Fin a \<Rightarrow> Some (trunc a) | _ \<Rightarrow> None)"

text \<open>
  What a caller can pass for the \<open>date\<close> parameter: a date object, or a value that
  is not an instance of \<open>Date\<close>.
\<close>

datatype js_value = DateObject timevalue | NotADate

section \<open>The program\<close>

text \<open>The errors thrown, one for each \<open>throw\<close> of the source, named after its message.\<close>

datatype error =
    Latitude_must_be_in_range
  | Longitude_must_be_in_range
  | Invalid_Date_object
  | Area_must_be_ge_0
  | Efficiency_in_range_0_1
  | Panel_area_must_be_ge_0
  | Irradiance_must_be_ge_0
  | Performance_ratio_in_0_1
  | Period_hours_must_be_gt_0

record SolarPosition =
  declination :: number
  hourAngle :: number
  altitude :: number
  azimuth :: number
  zenith :: number
  irradiance :: number

definition toRadians :: "number \<Rightarrow> number" where
  "toRadians deg = (deg * Math_PI) / Fin 180"

definition toDegrees :: "number \<Rightarrow> number" where
  "toDegrees rad = (rad * Fin 180) / Math_PI"

definition clamp :: "number \<Rightarrow> number \<Rightarrow> number \<Rightarrow> number" where
  "clamp v mn mx = Math_max mn (Math_min mx v)"

definition getDayOfYear :: "timevalue \<Rightarrow> number" where
  "getDayOfYear date =
     (let start = new_Date (Date_UTC_0_0 (getUTCFullYear date));
          diff = getTime date - getTime start;
          oneDay = Fin 24 * Fin 60 * Fin 60 * Fin 1000
      in Math_floor (diff / oneDay))"

definition computeSolarPotential :: "number \<Rightarrow> number \<Rightarrow> js_value \<Rightarrow> error + SolarPosition" where
  "computeSolarPotential lat lon date =
     (if Number_isNaN lat \<or> lat < Fin (- 90) \<or> lat > Fin 90 then Inl Latitude_must_be_in_range
      else if Number_isNaN lon \<or> lon < Fin (- 180) \<or> lon > Fin 180 then Inl Longitude_must_be_in_range
      else case date of
        NotADate \<Rightarrow> Inl Invalid_Date_object
      | DateObject tv \<Rightarrow>
          if Number_isNaN (getTime tv) then Inl Invalid_Date_object
          else
            let I0 = Fin 1367;
                n = getDayOfYear tv;
                decl = Fin 23.45 * Math_sin (toRadians ((Fin 360 / Fin 365) * (n - Fin 81)));
                hours = getUTCHours tv + getUTCMinutes tv / Fin 60 + getUTCSeconds tv / Fin 3600;
                lstm = Fin 15 * Math_round (lon / Fin 15);
                eqTime = Fin 7.5 * Math_sin (toRadians ((Fin 360 / Fin 365) * (n - Fin 81)));
                timeOffset = eqTime + Fin 4 * (lon - lstm);
                solarTime = hours + timeOffset / Fin 60;
                hourAngle = Fin 15 * (solarTime - Fin 12);
                latRad = toRadians lat;
                declRad = toRadians decl;
                haRad = toRadians hourAngle;
                sinAlt = clamp
                  (Math_sin latRad * Math_sin declRad +
                     Math_cos latRad * Math_cos declRad * Math_cos haRad)
                  (Fin (- 1)) (Fin 1);
                altitude = toDegrees (Math_asin sinAlt);
                zenith = Fin 90 - altitude;
                (azimuth, groundIrradiance) =
                  (if altitude > Fin 0 then
                     let den = Math_cos (toRadians altitude);
                         sinAz = (if strict_eq den (Fin 0) then Fin 0
                                  else (Math_cos declRad * Math_sin haRad) / den);
                         sinAz = clamp sinAz (Fin (- 1)) (Fin 1);
                         azimuth = toDegrees (Math_asin sinAz);
                         azimuth = (if hourAngle > Fin 0 then Fin 180 - azimuth else Fin 180 + azimuth);
                         azimuth = js_rem (azimuth + Fin 360) (Fin 360);
                         groundIrradiance = Math_max (Fin 0) (I0 * sinAlt)
                     in (azimuth, groundIrradiance)
                   else (NaN, Fin 0))
            in Inr \<lparr>declination = decl, hourAngle = hourAngle, altitude = altitude,
                    azimuth = azimuth, zenith = zenith, irradiance = groundIrradiance\<rparr>)"


text \<open>The last parameter is optional: \<open>None\<close> is the call without it, and then it is 0.75.\<close>

definition estimateEnergyProduced ::
    "number \<Rightarrow> number \<Rightarrow> number \<Rightarrow> number \<Rightarrow> number option \<Rightarrow> error + number" where
  "estimateEnergyProduced area efficiency averageIrradiance periodHours performanceRatio_opt =
     (let performanceRatio = (case performanceRatio_opt of None \<Rightarrow> Fin 0.75 | Some r \<Rightarrow> r)
      in if area < Fin 0 \<or> \<not> Number_isFinite area then Inl Panel_area_must_be_ge_0
         else if efficiency < Fin 0 \<or> efficiency > Fin 1 then Inl Efficiency_in_range_0_1
         else if averageIrradiance < Fin 0 then Inl Irradiance_must_be_ge_0
         else if performanceRatio < Fin 0 \<or> performanceRatio > Fin 1 then Inl Performance_ratio_in_0_1
         else if periodHours \<le> Fin 0 then Inl Period_hours_must_be_gt_0
         else
           let energyKWh =
                 area * efficiency * ((averageIrradiance * periodHours) / Fin 1000) * performanceRatio
           in Inr energyKWh)"

section \<open>Facts about the number operations\<close>

lemma NaN_right [simp]:
  "x + NaN = NaN" "x - NaN = NaN" "x * NaN = NaN" "x / NaN = NaN"
  by (cases x; simp)+

lemma plus_not_NaN: "(x::number) + y \<noteq> NaN \<Longrightarrow> x \<noteq> NaN \<and> y \<noteq> NaN"
  by (cases x; cases y) auto

lemma times_not_NaN: "(x::number) * y \<noteq> NaN \<Longrightarrow> x \<noteq> NaN \<and> y \<noteq> NaN"
  by (cases x; cases y) auto

lemma Math_cos_not_NaN: "Math_cos x \<noteq> NaN \<Longrightarrow> \<exists>r. x = Fin r"
  by (cases x) auto

lemma le_zero_not_gt: "(x::number) \<le> Fin 0 \<Longrightarrow> \<not> x > Fin 0"
  by (cases x) auto

lemma in_range_iff:
  "(\<not> (Number_isNaN x \<or> x < Fin a \<or> x > Fin b)) = (Fin a \<le> x \<and> x \<le> Fin b)"
  by (cases x) (auto simp: Number_isNaN_def)

lemma getTime_NaN: "Number_isNaN (getTime tv) = (tv = None)"
  by (cases tv) (auto simp: Number_isNaN_def getTime_def on_time_def)

lemma clamp_unit:
  "clamp v (Fin (- 1)) (Fin 1) =
     (case v of NaN \<Rightarrow> NaN | PosInf \<Rightarrow> Fin 1 | NegInf \<Rightarrow> Fin (- 1)
      | Fin r \<Rightarrow> Fin (max (- 1) (min 1 r)))"
  by (cases v) (auto simp: clamp_def Math_max_def Math_min_def)

lemma clamp_unit_cases:
  assumes "v \<noteq> NaN"
  obtains r where "clamp v (Fin (- 1)) (Fin 1) = Fin r" "- 1 \<le> r" "r \<le> 1"
  using assms by (cases v) (auto simp: clamp_unit)

lemma clamp_unit_NaN: "clamp v (Fin (- 1)) (Fin 1) \<noteq> NaN \<Longrightarrow> v \<noteq> NaN"
  by (cases v) (auto simp: clamp_unit)

lemma toDegrees_Fin: "toDegrees (Fin r) = Fin (r * 180 / pi)"
  by (simp add: toDegrees_def Math_PI_def)

lemma toRadians_Fin: "toRadians (Fin r) = Fin (r * pi / 180)"
  by (simp add: toRadians_def Math_PI_def)

lemma asin_degrees:
  assumes "- 1 \<le> r" "r \<le> 1"
  shows "\<exists>d. toDegrees (Math_asin (Fin r)) = Fin d \<and> - 90 \<le> d \<and> d \<le> 90 \<and> (0 < d) = (0 < r)"
proof (intro exI conjI)
  show "toDegrees (Math_asin (Fin r)) = Fin (arcsin r * 180 / pi)"
    using assms by (simp add: toDegrees_Fin)
  have b: "- (pi / 2) \<le> arcsin r" "arcsin r \<le> pi / 2"
    using arcsin_bounded [OF assms] by blast+
  have "- 90 * pi \<le> arcsin r * 180" using b by simp
  then show "- 90 \<le> arcsin r * 180 / pi" by (simp add: pos_le_divide_eq)
  have "arcsin r * 180 \<le> 90 * pi" using b by simp
  then show "arcsin r * 180 / pi \<le> 90" by (simp add: pos_divide_le_eq)
  have "(0 < arcsin r) = (0 < r)"
    using arcsin_less_mono [of 0 r] assms by simp
  then show "(0 < arcsin r * 180 / pi) = (0 < r)"
    by (simp add: zero_less_divide_iff zero_less_mult_iff)
qed

lemma toDegrees_asin_pos:
  assumes "Fin 0 < toDegrees (Math_asin s)"
  obtains r where "s = Fin r" "0 < r" "r \<le> 1"
proof (cases s)
  case (Fin r)
  show ?thesis
  proof (cases "- 1 \<le> r \<and> r \<le> 1")
    case True
    then obtain d where "toDegrees (Math_asin (Fin r)) = Fin d" "(0 < d) = (0 < r)"
      using asin_degrees [of r] by blast
    with assms Fin True that show ?thesis by auto
  next
    case False
    with assms Fin show ?thesis by (auto simp: toDegrees_def)
  qed
qed (use assms in \<open>auto simp: toDegrees_def\<close>)

lemma js_rem_360:
  assumes "90 \<le> z" "z \<le> 270"
  shows "js_rem (Fin z + Fin 360) (Fin 360) = Fin z"
proof -
  have "\<lfloor>(z + 360) / 360\<rfloor> = 1" using assms by (simp add: floor_eq_iff)
  then show ?thesis using assms by (simp add: trunc_def)
qed

lemma trunc_of_int: "trunc (of_int k) = k"
  by (simp add: trunc_def)

lemma Math_floor_div_int:
  "0 < b \<Longrightarrow> Math_floor (Fin (of_int a) / Fin (of_int b)) = Fin (of_int (a div b))"
  by (simp add: floor_divide_of_int_eq)

section \<open>Facts about sine, cosine and pi\<close>

lemma cos_17_10_neg: "cos (17 / 10 :: real) < 0"
proof -
  obtain t :: real where
    "cos (17 / 10) = (\<Sum>m<6. cos_coeff m * (17 / 10) ^ m)
       + (cos (t + 1 / 2 * real 6 * pi) / fact 6) * (17 / 10) ^ 6"
    using Maclaurin_cos_expansion2 [of "17 / 10" 6] by auto
  moreover have "(\<Sum>m<6. cos_coeff m * (17 / 10 :: real) ^ m) = 1 - (17 / 10)\<^sup>2 / 2 + (17 / 10) ^ 4 / 24"
  proof -
    have "{..<6::nat} = {0, 1, 2, 3, 4, 5}" by auto
    moreover have "cos_coeff 1 = 0" "cos_coeff 2 = - 1 / 2" "cos_coeff 3 = 0"
      "cos_coeff 4 = 1 / 24" "cos_coeff 5 = 0"
      by (simp_all add: cos_coeff_def fact_numeral)
    ultimately show ?thesis by simp
  qed
  moreover have "(cos (t + 1 / 2 * real 6 * pi) / fact 6) * (17 / 10) ^ 6 \<le> (1 / fact 6) * (17 / 10) ^ 6"
    by (intro mult_right_mono divide_right_mono) simp_all
  ultimately have "cos (17 / 10 :: real) \<le> 1 - (17 / 10)\<^sup>2 / 2 + (17 / 10) ^ 4 / 24 + (1 / fact 6) * (17 / 10) ^ 6"
    by linarith
  also have "\<dots> < 0" by (simp add: fact_numeral power_divide)
  finally show ?thesis .
qed

lemma pi_less_34: "pi < 34 / 10"
proof (rule ccontr)
  assume "\<not> pi < 34 / 10"
  then have "17 / 10 \<le> pi / 2" by simp
  then have "0 \<le> cos (17 / 10 :: real)" by (intro cos_ge_zero) simp_all
  with cos_17_10_neg show False by simp
qed

lemma cos_ge_quadratic: "1 - x\<^sup>2 / 2 \<le> cos (x::real)"
proof -
  have "cos x = 1 - 2 * (sin (x / 2))\<^sup>2"
    using cos_double_sin [of "x / 2"] by simp
  moreover have "(sin (x / 2))\<^sup>2 \<le> (x / 2)\<^sup>2"
    using abs_sin_x_le_abs_x [of "x / 2"] by (simp add: abs_le_square_iff [symmetric])
  ultimately show ?thesis by (simp add: power_divide)
qed

lemma cos_mult_ge_cos_add:
  assumes "0 \<le> A" "A \<le> pi" "0 \<le> B" "B \<le> pi"
  shows "cos (A + B) \<le> cos A * cos B"
proof -
  have "0 \<le> sin A * sin B"
    using assms by (intro mult_nonneg_nonneg sin_ge_zero)
  then show ?thesis by (simp add: cos_add)
qed

section \<open>Facts about dates\<close>

lemma DayFromYear_step_le: "DayFromYear (y + 1) \<le> DayFromYear y + 366"
proof -
  have "(y - 1901) mod 100 = 99" if a: "(y - 1601) mod 400 = 399"
  proof -
    have "((y - 1601) mod 400) mod 100 = (y - 1601) mod 100" by (rule mod_mod_cancel) simp
    with a have b: "(y - 1601) mod 100 = 99" by simp
    have "(y - 1901) mod 100 = ((y - 1601) + (- 3) * 100) mod 100" by simp
    also have "\<dots> = (y - 1601) mod 100" by (rule mod_mult_self1)
    finally show ?thesis using b by simp
  qed
  then show ?thesis
    unfolding DayFromYear_succ by (simp split: if_splits)
qed

lemma DayFromYear_add_ge: "DayFromYear y + 365 * int k \<le> DayFromYear (y + int k)"
proof (induction k)
  case 0
  show ?case by simp
next
  case (Suc k)
  have "DayFromYear (y + int k) + 365 \<le> DayFromYear (y + int k + 1)"
    by (rule DayFromYear_step)
  with Suc show ?case by (simp add: algebra_simps)
qed

lemma DayFromYear_add_le: "DayFromYear (y + int k) \<le> DayFromYear y + 366 * int k"
proof (induction k)
  case 0
  show ?case by simp
next
  case (Suc k)
  have "DayFromYear (y + int k + 1) \<le> DayFromYear (y + int k) + 366"
    by (rule DayFromYear_step_le)
  with Suc show ?case by (simp add: algebra_simps)
qed

lemma DayFromYear_less: "y < z \<Longrightarrow> DayFromYear y < DayFromYear z"
proof -
  assume "y < z"
  then obtain k where z: "z = y + int (Suc k)"
    by (metis add.commute less_iff_Suc_add zless_iff_Suc_zadd)
  have "DayFromYear y + 365 * int (Suc k) \<le> DayFromYear (y + int (Suc k))"
    by (rule DayFromYear_add_ge)
  then show ?thesis unfolding z by simp
qed

lemma DayFromYear_1970: "DayFromYear 1970 = 0"
  by (simp add: DayFromYear_def)

text \<open>The year the search starts from is not after the year of the day.\<close>

lemma year_guess: "DayFromYear (1970 + (if 0 \<le> d then d div 366 else d div 365)) \<le> d"
proof (cases "0 \<le> d")
  case True
  define k where "k = nat (d div 366)"
  have k: "int k = d div 366" using True by (simp add: k_def pos_imp_zdiv_nonneg_iff)
  have "DayFromYear (1970 + int k) \<le> DayFromYear 1970 + 366 * int k"
    by (rule DayFromYear_add_le)
  also have "\<dots> \<le> d" unfolding k DayFromYear_1970 by simp
  finally show ?thesis using True k by simp
next
  case False
  define k where "k = nat (- (d div 365))"
  have neg: "d div 365 < 0" using False by (simp add: div_neg_pos_less0)
  have k: "int k = - (d div 365)" using neg by (simp add: k_def)
  have "DayFromYear (1970 - int k) + 365 * int k \<le> DayFromYear (1970 - int k + int k)"
    by (rule DayFromYear_add_ge)
  then have "DayFromYear (1970 - int k) \<le> - (365 * int k)"
    by (simp add: DayFromYear_1970)
  also have "\<dots> = 365 * (d div 365)" unfolding k by simp
  also have "\<dots> \<le> d" by simp
  finally show ?thesis using False k by simp
qed

lemma yearUpFrom_spec:
  "DayFromYear y \<le> d \<Longrightarrow>
     DayFromYear (yearUpFrom d y) \<le> d \<and> d < DayFromYear (yearUpFrom d y + 1)"
proof (induction d y rule: yearUpFrom.induct)
  case (1 d y)
  show ?case
  proof (cases "DayFromYear (y + 1) \<le> d")
    case True
    with "1.IH" show ?thesis by (simp del: yearUpFrom.simps add: yearUpFrom.simps [of d y])
  next
    case False
    with "1.prems" show ?thesis by (simp del: yearUpFrom.simps add: yearUpFrom.simps [of d y])
  qed
qed

text \<open>
  \<open>YearFromDay\<close> meets the specification of ECMA-262: the year it returns starts on or
  before the day, and the next year starts after it.
\<close>

lemma YearFromDay_spec:
  "DayFromYear (YearFromDay d) \<le> d \<and> d < DayFromYear (YearFromDay d + 1)"
  unfolding YearFromDay_def by (rule yearUpFrom_spec) (rule year_guess)

lemma YearFromDay_eqI:
  assumes "DayFromYear y \<le> d" "d < DayFromYear (y + 1)"
  shows "YearFromDay d = y"
proof (rule ccontr)
  assume ne: "YearFromDay d \<noteq> y"
  note s = YearFromDay_spec [of d]
  show False
  proof (cases "YearFromDay d < y")
    case True
    then have "DayFromYear (YearFromDay d + 1) \<le> DayFromYear y"
      using DayFromYear_less [of "YearFromDay d + 1" y] by (cases "YearFromDay d + 1 = y") auto
    with s assms show False by simp
  next
    case False
    with ne have "y < YearFromDay d" by simp
    then have "DayFromYear (y + 1) \<le> DayFromYear (YearFromDay d)"
      using DayFromYear_less [of "y + 1" "YearFromDay d"] by (cases "y + 1 = YearFromDay d") auto
    with s assms show False by simp
  qed
qed

text \<open>
  The day of the year of an instant whose year is known, when December 31 of the year
  before is a time value in range and the year is not one that \<open>MakeFullYear\<close> moves.
\<close>

lemma getDayOfYear_eq:
  assumes "YearFromTime t = y" "y < 0 \<or> 99 < y"
    "\<bar>(DayFromYear y - 1) * msPerDay\<bar> \<le> 8640000000000000"
  shows "getDayOfYear (Some t) = Fin (of_int ((t - (DayFromYear y - 1) * msPerDay) div msPerDay))"
proof -
  have fy: "getUTCFullYear (Some t) = Fin (of_int y)"
    by (simp add: getUTCFullYear_def on_time_def assms(1))
  have "\<bar>real_of_int ((DayFromYear y - 1) * msPerDay)\<bar> \<le> 8640000000000000"
    using assms(3) by (metis of_int_abs of_int_le_iff of_int_numeral)
  then have st: "new_Date (Date_UTC_0_0 (Fin (of_int y))) = Some ((DayFromYear y - 1) * msPerDay)"
    using assms(2) by (auto simp add: trunc_of_int MakeFullYear_def simp del: of_int_mult of_int_diff)
  have "Fin 24 * Fin 60 * Fin 60 * Fin 1000 = Fin (of_int msPerDay)"
    by (simp add: msPerDay_def)
  moreover have "getTime (Some t) - getTime (Some ((DayFromYear y - 1) * msPerDay))
      = Fin (of_int (t - (DayFromYear y - 1) * msPerDay))"
    by (simp add: getTime_def on_time_def)
  ultimately show ?thesis
    unfolding getDayOfYear_def Let_def fy st
    by (simp only: Math_floor_div_int msPerDay_def)
qed

lemma DayFromYear_mono: "y \<le> z \<Longrightarrow> DayFromYear y \<le> DayFromYear z"
  using DayFromYear_less [of y z] by (cases "y = z") auto

text \<open>
  From the year -271820 on, December 31 of the year before is a time value in range, and
  the day of the year of every instant is an integer.
\<close>

lemma getDayOfYear_defined:
  assumes "- 271820 \<le> YearFromTime t" "t \<le> 8640000000000000"
  shows "\<exists>k. getDayOfYear (Some t) = Fin (of_int k)"
proof -
  define y where "y = YearFromTime t"
  define y' where "y' = MakeFullYear y"
  have "DayFromYear y \<le> Day t"
    unfolding y_def YearFromTime_def using YearFromDay_spec [of "Day t"] by simp
  also have "Day t \<le> 100000000"
    using zdiv_mono1 [OF assms(2), of 86400000] unfolding Day_def msPerDay_def by simp
  finally have up: "DayFromYear y \<le> 100000000" .
  have lo: "- 99999744 \<le> DayFromYear y"
    using DayFromYear_mono [of "- 271820" y] assms(1)
    unfolding y_def [symmetric] by (simp add: DayFromYear_def)
  have "- 99999744 \<le> DayFromYear y' \<and> DayFromYear y' \<le> 100000000"
  proof (cases "0 \<le> y \<and> y \<le> 99")
    case True
    then have "1900 \<le> y'" "y' \<le> 1999" by (simp_all add: y'_def MakeFullYear_def)
    then have "DayFromYear 1900 \<le> DayFromYear y'" "DayFromYear y' \<le> DayFromYear 1999"
      by (simp_all add: DayFromYear_mono)
    then show ?thesis by (simp add: DayFromYear_def)
  next
    case False
    then have "y' = y" by (auto simp: y'_def MakeFullYear_def)
    with up lo show ?thesis by simp
  qed
  then have "\<bar>(DayFromYear y' - 1) * msPerDay\<bar> \<le> 8640000000000000"
    unfolding msPerDay_def by (simp add: abs_le_iff)
  then have "\<bar>real_of_int ((DayFromYear y' - 1) * msPerDay)\<bar> \<le> 8640000000000000"
    by (metis of_int_abs of_int_le_iff of_int_numeral)
  then have st: "new_Date (Date_UTC_0_0 (Fin (of_int y))) = Some ((DayFromYear y' - 1) * msPerDay)"
    unfolding y'_def
    by (simp add: trunc_of_int del: of_int_mult of_int_diff)
  have fy: "getUTCFullYear (Some t) = Fin (of_int y)"
    by (simp add: getUTCFullYear_def on_time_def y_def)
  have "Fin 24 * Fin 60 * Fin 60 * Fin 1000 = Fin (of_int msPerDay)"
    by (simp add: msPerDay_def)
  moreover have "getTime (Some t) - getTime (Some ((DayFromYear y' - 1) * msPerDay))
      = Fin (of_int (t - (DayFromYear y' - 1) * msPerDay))"
    by (simp add: getTime_def on_time_def)
  ultimately have "getDayOfYear (Some t)
      = Fin (of_int ((t - (DayFromYear y' - 1) * msPerDay) div msPerDay))"
    unfolding getDayOfYear_def Let_def fy st
    by (simp only: Math_floor_div_int msPerDay_def)
  then show ?thesis by blast
qed

section \<open>The fields of a returned position\<close>

text \<open>
  The fields of a position that \<open>computeSolarPotential\<close> returns, as the expressions the
  function computes them from.
\<close>

lemma position_fields:
  fixes lat lon :: number and tv :: timevalue
  defines "n \<equiv> getDayOfYear tv"
  defines "decl \<equiv> Fin 23.45 * Math_sin (toRadians ((Fin 360 / Fin 365) * (n - Fin 81)))"
  defines "hours \<equiv> getUTCHours tv + getUTCMinutes tv / Fin 60 + getUTCSeconds tv / Fin 3600"
  defines "lstm \<equiv> Fin 15 * Math_round (lon / Fin 15)"
  defines "eqTime \<equiv> Fin 7.5 * Math_sin (toRadians ((Fin 360 / Fin 365) * (n - Fin 81)))"
  defines "ha \<equiv> Fin 15 * ((hours + (eqTime + Fin 4 * (lon - lstm)) / Fin 60) - Fin 12)"
  defines "declRad \<equiv> toRadians decl"
  defines "haRad \<equiv> toRadians ha"
  defines "sinAlt \<equiv> clamp (Math_sin (toRadians lat) * Math_sin declRad +
                     Math_cos (toRadians lat) * Math_cos declRad * Math_cos haRad) (Fin (- 1)) (Fin 1)"
  defines "alt \<equiv> toDegrees (Math_asin sinAlt)"
  defines "den \<equiv> Math_cos (toRadians alt)"
  defines "sinAz \<equiv> clamp (if strict_eq den (Fin 0) then Fin 0
                                  else (Math_cos declRad * Math_sin haRad) / den) (Fin (- 1)) (Fin 1)"
  defines "az \<equiv> toDegrees (Math_asin sinAz)"
  assumes r: "computeSolarPotential lat lon (DateObject tv) = Inr p"
  shows "declination p = decl \<and> hourAngle p = ha \<and> altitude p = alt \<and> zenith p = Fin 90 - alt
    \<and> irradiance p = (if Fin 0 < alt then Math_max (Fin 0) (Fin 1367 * sinAlt) else Fin 0)
    \<and> azimuth p = (if Fin 0 < alt
         then js_rem ((if Fin 0 < ha then Fin 180 - az else Fin 180 + az) + Fin 360) (Fin 360)
         else NaN)"
proof -
  define Q where "Q = (if Fin 0 < alt
       then (js_rem ((if Fin 0 < ha then Fin 180 - az else Fin 180 + az) + Fin 360) (Fin 360),
             Math_max (Fin 0) (Fin 1367 * sinAlt))
       else (NaN, Fin 0))"
  note defs = n_def decl_def hours_def lstm_def eqTime_def ha_def declRad_def haRad_def
    sinAlt_def alt_def den_def sinAz_def az_def
  have v: "\<not> (Number_isNaN lat \<or> lat < Fin (- 90) \<or> lat > Fin 90)"
    "\<not> (Number_isNaN lon \<or> lon < Fin (- 180) \<or> lon > Fin 180)"
    "\<not> Number_isNaN (getTime tv)"
    using r by (auto simp: computeSolarPotential_def split: if_splits)
  have "(case Q of (a, g) \<Rightarrow> Inr \<lparr>declination = decl, hourAngle = ha, altitude = alt,
            azimuth = a, zenith = Fin 90 - alt, irradiance = g\<rparr>)
        = (Inr p :: error + SolarPosition)"
    using r v unfolding Q_def defs computeSolarPotential_def Let_def
    by (simp only: if_False js_value.case)
  then have p: "p = \<lparr>declination = decl, hourAngle = ha, altitude = alt,
                    azimuth = fst Q, zenith = Fin 90 - alt, irradiance = snd Q\<rparr>"
    by (cases Q) auto
  show ?thesis unfolding p Q_def by simp
qed

text \<open>
  When the altitude is greater than 0, the sine of the altitude is a finite number
  \<open>r\<close> with \<open>0 < r \<le> 1\<close>, the irradiance is \<open>1367 * r\<close>, and the azimuth is 180 plus
  or minus an arcsine in degrees.
\<close>

lemma daylight_fields:
  assumes "computeSolarPotential lat lon date = Inr p" "Fin 0 < altitude p"
  obtains r z where "irradiance p = Fin (1367 * r)" "0 < r" "r \<le> 1"
    "azimuth p = Fin z" "90 \<le> z" "z \<le> 270"
proof -
  from assms(1) obtain tv where date: "date = DateObject tv"
    by (auto simp: computeSolarPotential_def split: if_splits js_value.splits)
  define n where "n = getDayOfYear tv"
  define decl where "decl = Fin 23.45 * Math_sin (toRadians ((Fin 360 / Fin 365) * (n - Fin 81)))"
  define hours where "hours = getUTCHours tv + getUTCMinutes tv / Fin 60 + getUTCSeconds tv / Fin 3600"
  define lstm where "lstm = Fin 15 * Math_round (lon / Fin 15)"
  define eqTime where "eqTime = Fin 7.5 * Math_sin (toRadians ((Fin 360 / Fin 365) * (n - Fin 81)))"
  define ha where "ha = Fin 15 * ((hours + (eqTime + Fin 4 * (lon - lstm)) / Fin 60) - Fin 12)"
  define declRad where "declRad = toRadians decl"
  define haRad where "haRad = toRadians ha"
  define X where "X = Math_sin (toRadians lat) * Math_sin declRad +
                     Math_cos (toRadians lat) * Math_cos declRad * Math_cos haRad"
  define sinAlt where "sinAlt = clamp X (Fin (- 1)) (Fin 1)"
  define alt where "alt = toDegrees (Math_asin sinAlt)"
  define den where "den = Math_cos (toRadians alt)"
  define sinAz where "sinAz = clamp (if strict_eq den (Fin 0) then Fin 0
                                  else (Math_cos declRad * Math_sin haRad) / den) (Fin (- 1)) (Fin 1)"
  define az where "az = toDegrees (Math_asin sinAz)"
  note defs = n_def decl_def hours_def lstm_def eqTime_def ha_def declRad_def haRad_def X_def
    sinAlt_def alt_def den_def sinAz_def az_def
  have fields: "altitude p = alt"
    "irradiance p = (if Fin 0 < alt then Math_max (Fin 0) (Fin 1367 * sinAlt) else Fin 0)"
    "azimuth p = (if Fin 0 < alt
         then js_rem ((if Fin 0 < ha then Fin 180 - az else Fin 180 + az) + Fin 360) (Fin 360)
         else NaN)"
    using position_fields [OF assms(1) [unfolded date]] unfolding defs by blast+
  have pos: "Fin 0 < alt" using assms(2) fields(1) by simp
  from pos obtain r where r: "sinAlt = Fin r" "0 < r" "r \<le> 1"
    unfolding alt_def by (rule toDegrees_asin_pos)
  have "X \<noteq> NaN" using r(1) clamp_unit_NaN unfolding sinAlt_def by force
  then have "Math_cos declRad \<noteq> NaN" "Math_cos haRad \<noteq> NaN"
    unfolding X_def using plus_not_NaN times_not_NaN by blast+
  then obtain dr hr where rad: "declRad = Fin dr" "haRad = Fin hr"
    using Math_cos_not_NaN by blast
  have "- 1 \<le> r" using r(2) by simp
  from asin_degrees [OF this r(3)] obtain a where a: "alt = Fin a"
    unfolding alt_def r(1) by blast
  have "(if strict_eq den (Fin 0) then Fin 0 else (Math_cos declRad * Math_sin haRad) / den) \<noteq> NaN"
    unfolding den_def a rad by (simp add: toRadians_Fin strict_eq_def)
  then obtain s where s: "sinAz = Fin s" "- 1 \<le> s" "s \<le> 1"
    unfolding sinAz_def by (rule clamp_unit_cases)
  from asin_degrees [OF s(2,3)] obtain d where d: "az = Fin d" "- 90 \<le> d" "d \<le> 90"
    unfolding az_def s(1) by blast
  define z where "z = (if Fin 0 < ha then 180 - d else 180 + d)"
  have z: "(if Fin 0 < ha then Fin 180 - az else Fin 180 + az) = Fin z" "90 \<le> z" "z \<le> 270"
    using d by (auto simp: z_def)
  have "azimuth p = js_rem (Fin z + Fin 360) (Fin 360)"
    using fields(3) pos z(1) by simp
  then have "azimuth p = Fin z" by (simp only: js_rem_360 [OF z(2,3)])
  moreover have "irradiance p = Fin (1367 * r)"
    using fields(2) pos r by (simp add: Math_max_def)
  ultimately show ?thesis using that r z by blast
qed

text \<open>
  When the day of the year is a finite number, the argument of \<open>asin\<close> is in [-1, 1]
  after the clamp and the fields of the position other than the azimuth are finite
  numbers, the altitude from -90 to 90.
\<close>

lemma position_defined:
  assumes r: "computeSolarPotential lat lon (DateObject (Some t)) = Inr p"
    and n: "getDayOfYear (Some t) = Fin k"
  shows "\<exists>d h a z i. declination p = Fin d \<and> hourAngle p = Fin h
      \<and> altitude p = Fin a \<and> - 90 \<le> a \<and> a \<le> 90
      \<and> zenith p = Fin z \<and> irradiance p = Fin i \<and> 0 \<le> i"
proof -
  have v: "\<not> (Number_isNaN lat \<or> lat < Fin (- 90) \<or> lat > Fin 90)"
    "\<not> (Number_isNaN lon \<or> lon < Fin (- 180) \<or> lon > Fin 180)"
    using r by (auto simp: computeSolarPotential_def split: if_splits)
  obtain la where la: "lat = Fin la" using v(1) by (cases lat) (auto simp: Number_isNaN_def)
  obtain lo where lo: "lon = Fin lo" using v(2) by (cases lon) (auto simp: Number_isNaN_def)
  note f = position_fields [OF r, unfolded n la lo]
  define sn where "sn = sin ((360 / 365 * (k - 81)) * pi / 180)"
  define d where "d = 23.45 * sn"
  define e where "e = 7.5 * sn"
  define h where "h = 15 * ((real_of_int (HourFromTime t) + real_of_int (MinFromTime t) / 60
        + real_of_int (SecFromTime t) / 3600
        + (e + 4 * (lo - 15 * of_int \<lfloor>lo / 15 + 1 / 2\<rfloor>)) / 60) - 12)"
  define X where "X = sin (la * pi / 180) * sin (d * pi / 180)
        + cos (la * pi / 180) * cos (d * pi / 180) * cos (h * pi / 180)"
  have sn: "Math_sin (toRadians ((Fin 360 / Fin 365) * (Fin k - Fin 81))) = Fin sn"
    unfolding sn_def by (simp add: toRadians_Fin)
  have d: "Fin 23.45 * Fin sn = Fin d" unfolding d_def by simp
  have e: "Fin 7.5 * Fin sn = Fin e" unfolding e_def by simp
  have h: "Fin 15 * ((getUTCHours (Some t) + getUTCMinutes (Some t) / Fin 60
        + getUTCSeconds (Some t) / Fin 3600
        + (Fin e + Fin 4 * (Fin lo - Fin 15 * Math_round (Fin lo / Fin 15))) / Fin 60) - Fin 12) = Fin h"
    unfolding h_def getUTCHours_def getUTCMinutes_def getUTCSeconds_def on_time_def by simp
  have X: "Math_sin (toRadians (Fin la)) * Math_sin (toRadians (Fin d)) +
       Math_cos (toRadians (Fin la)) * Math_cos (toRadians (Fin d)) * Math_cos (toRadians (Fin h)) = Fin X"
    unfolding X_def by (simp add: toRadians_Fin)
  obtain c where c: "clamp (Fin X) (Fin (- 1)) (Fin 1) = Fin c" "- 1 \<le> c" "c \<le> 1"
    by (rule clamp_unit_cases [of "Fin X"]) simp_all
  from asin_degrees [OF c(2,3)] obtain a where
    a: "toDegrees (Math_asin (Fin c)) = Fin a" "- 90 \<le> a" "a \<le> 90"
    by blast
  note g = f [unfolded sn d e h X c(1) a(1)]
  have "irradiance p = Fin (if 0 < a then max 0 (1367 * c) else 0)"
    using g by (simp add: Math_max_def max_def)
  moreover have "0 \<le> (if 0 < a then max 0 (1367 * c) else 0)" by simp
  moreover have "zenith p = Fin (90 - a)" using g by simp
  ultimately show ?thesis using g a(2,3) by blast
qed

section \<open>The position at particular instants\<close>

text \<open>
  The instants used below, as time values: 2025-03-22T12:00:00Z is 1742644800000 and
  2025-03-22T00:00:00Z is 1742601600000 (day 81 of the year, where the declination and
  the equation of time are zero), 2025-03-21T12:00:00Z is 1742558400000, and
  -8640000000000000 is the earliest time value, -271821-04-20T00:00:00Z.
\<close>

lemma year_of_equinox_noon: "YearFromTime 1742644800000 = 2025"
  unfolding YearFromTime_def
  by (rule YearFromDay_eqI) (simp_all add: Day_def msPerDay_def DayFromYear_def)

lemma year_of_equinox_midnight: "YearFromTime 1742601600000 = 2025"
  unfolding YearFromTime_def
  by (rule YearFromDay_eqI) (simp_all add: Day_def msPerDay_def DayFromYear_def)

lemma year_of_earliest: "YearFromTime (- 8640000000000000) = - 271821"
  unfolding YearFromTime_def
  by (rule YearFromDay_eqI) (simp_all add: Day_def msPerDay_def DayFromYear_def)

lemma day_of_equinox_noon: "getDayOfYear (Some 1742644800000) = Fin 81"
  using getDayOfYear_eq [OF year_of_equinox_noon] by (simp add: DayFromYear_def msPerDay_def)

lemma day_of_equinox_midnight: "getDayOfYear (Some 1742601600000) = Fin 81"
  using getDayOfYear_eq [OF year_of_equinox_midnight] by (simp add: DayFromYear_def msPerDay_def)

text \<open>
  At the earliest instant \<open>Date.UTC(-271821, 0, 0)\<close> is before the earliest time value:
  \<open>start\<close> is an invalid date and the day of the year is \<open>NaN\<close>.
\<close>

lemma day_of_earliest: "getDayOfYear (Some (- 8640000000000000)) = NaN"
  by (simp add: getDayOfYear_def getUTCFullYear_def on_time_def year_of_earliest trunc_def
      MakeFullYear_def DayFromYear_def msPerDay_def getTime_def)

lemmas time_of_day_defs =
  getUTCHours_def getUTCMinutes_def getUTCSeconds_def on_time_def
  HourFromTime_def MinFromTime_def SecFromTime_def

lemma equinox_noon_position:
  "computeSolarPotential (Fin 0) (Fin 0) (DateObject (Some 1742644800000)) =
     Inr \<lparr>declination = Fin 0, hourAngle = Fin 0, altitude = Fin 90, azimuth = Fin 180,
          zenith = Fin 0, irradiance = Fin 1367\<rparr>"
  by (simp add: computeSolarPotential_def Number_isNaN_def getTime_def day_of_equinox_noon
      time_of_day_defs toRadians_Fin toDegrees_Fin clamp_unit strict_eq_def Math_max_def
      trunc_def Let_def)

lemma equinox_midnight_position:
  "computeSolarPotential (Fin 0) (Fin 0) (DateObject (Some 1742601600000)) =
     Inr \<lparr>declination = Fin 0, hourAngle = Fin (- 180), altitude = Fin (- 90), azimuth = NaN,
          zenith = Fin 180, irradiance = Fin 0\<rparr>"
  by (simp add: computeSolarPotential_def Number_isNaN_def getTime_def day_of_equinox_midnight
      time_of_day_defs toRadians_Fin toDegrees_Fin clamp_unit strict_eq_def Math_max_def
      trunc_def Let_def)

lemma year_of_march_21_noon: "YearFromTime 1742558400000 = 2025"
  unfolding YearFromTime_def
  by (rule YearFromDay_eqI) (simp_all add: Day_def msPerDay_def DayFromYear_def)

text \<open>
  1742558400000 is 2025-03-21T12:00:00.000Z: day 79 after January 1 (31 + 28 + 20 days)
  of the year 2025, at 12 hours, 0 minutes, 0 seconds and 0 milliseconds.
\<close>

lemma march_21_noon_calendar:
  "YearFromTime 1742558400000 = 2025 \<and> Day 1742558400000 - DayFromYear 2025 = 31 + 28 + 20
   \<and> HourFromTime 1742558400000 = 12 \<and> MinFromTime 1742558400000 = 0
   \<and> SecFromTime 1742558400000 = 0 \<and> 1742558400000 mod 1000 = (0::int)"
  by (simp add: year_of_march_21_noon Day_def msPerDay_def DayFromYear_def
      HourFromTime_def MinFromTime_def SecFromTime_def)

lemma day_of_march_21_noon: "getDayOfYear (Some 1742558400000) = Fin 80"
  using getDayOfYear_eq [OF year_of_march_21_noon] by (simp add: DayFromYear_def msPerDay_def)

lemma march_21_noon_returns:
  "\<exists>p. computeSolarPotential (Fin 0) (Fin 0) (DateObject (Some 1742558400000)) = Inr p"
  by (simp add: computeSolarPotential_def Number_isNaN_def getTime_def on_time_def Let_def
      split: prod.splits)

lemma march_21_noon_fields:
  fixes s A B :: real
  defines "s \<equiv> sin (2 * pi / 365)"
  defines "A \<equiv> 23.45 * s * pi / 180"
  defines "B \<equiv> 1.875 * s * pi / 180"
  assumes r: "computeSolarPotential (Fin 0) (Fin 0) (DateObject (Some 1742558400000)) = Inr p"
  shows "declination p = Fin (- (23.45 * s))" "hourAngle p = Fin (- (1.875 * s))"
    "altitude p = Fin (arcsin (cos A * cos B) * 180 / pi)"
    "0 < cos A * cos B \<Longrightarrow> irradiance p = Fin (1367 * (cos A * cos B))"
proof -
  note f = position_fields [OF r]
  have x: "toRadians ((Fin 360 / Fin 365) * (Fin 80 - Fin 81)) = Fin (- (2 * pi / 365))"
    by (simp add: toRadians_Fin)
  have sx: "Math_sin (toRadians ((Fin 360 / Fin 365) * (Fin 80 - Fin 81))) = Fin (- s)"
    unfolding x s_def by simp
  have hms: "getUTCHours (Some 1742558400000) = Fin 12"
    "getUTCMinutes (Some 1742558400000) = Fin 0" "getUTCSeconds (Some 1742558400000) = Fin 0"
    by (simp_all add: time_of_day_defs)
  show d: "declination p = Fin (- (23.45 * s))"
    using f unfolding day_of_march_21_noon sx by simp
  show h: "hourAngle p = Fin (- (1.875 * s))"
    using f unfolding day_of_march_21_noon sx hms by simp
  have c: "- 1 \<le> cos A * cos B" "cos A * cos B \<le> 1"
    using cos_ge_minus_one [of "A + B"] cos_ge_minus_one [of "A - B"]
      cos_le_one [of "A + B"] cos_le_one [of "A - B"]
    by (simp_all add: cos_add cos_diff)
  have dr: "toRadians (Fin 23.45 * Fin (- s)) = Fin (- A)"
    by (simp add: toRadians_Fin A_def)
  have hr: "toRadians (Fin 15 * ((Fin 12 + Fin 0 / Fin 60 + Fin 0 / Fin 3600 +
      (Fin 7.5 * Fin (- s) + Fin 4 * (Fin 0 - Fin 15 * Math_round (Fin 0 / Fin 15))) / Fin 60)
      - Fin 12)) = Fin (- B)"
    by (simp add: toRadians_Fin B_def)
  have sa: "clamp (Math_sin (toRadians (Fin 0)) * Math_sin (Fin (- A)) +
       Math_cos (toRadians (Fin 0)) * Math_cos (Fin (- A)) * Math_cos (Fin (- B)))
       (Fin (- 1)) (Fin 1) = Fin (cos A * cos B)"
    using c by (simp add: toRadians_Fin clamp_unit)
  show a: "altitude p = Fin (arcsin (cos A * cos B) * 180 / pi)"
    using f c unfolding day_of_march_21_noon sx hms dr hr sa by (simp add: toDegrees_Fin)
  show "irradiance p = Fin (1367 * (cos A * cos B))" if pos: "0 < cos A * cos B"
  proof -
    from asin_degrees [OF c] pos have up: "Fin 0 < toDegrees (Math_asin (Fin (cos A * cos B)))"
      by auto
    have "irradiance p = Math_max (Fin 0) (Fin 1367 * Fin (cos A * cos B))"
      using f up unfolding day_of_march_21_noon sx hms dr hr sa by (simp only: if_True)
    then show ?thesis using pos by (simp add: Math_max_def)
  qed
qed

lemma sin_year_step_bounds:
  fixes s :: real
  defines "s \<equiv> sin (2 * pi / 365)"
  shows "0 < s" "s < 68 / 3650"
proof -
  have t: "0 < 2 * pi / 365" "2 * pi / 365 < pi" by simp_all
  show "0 < s" unfolding s_def using t by (rule sin_gt_zero)
  have "s \<le> 2 * pi / 365" unfolding s_def by (rule sin_x_le_x) simp
  also have "\<dots> < 68 / 3650" using pi_less_34 by simp
  finally show "s < 68 / 3650" .
qed

lemma near_zenith:
  fixes s A B :: real
  defines "s \<equiv> sin (2 * pi / 365)"
  defines "A \<equiv> 23.45 * s * pi / 180"
  defines "B \<equiv> 1.875 * s * pi / 180"
  shows "cos (pi / 360) < cos A * cos B" "cos A * cos B \<le> 1"
proof -
  have s: "0 < s" "s < 68 / 3650"
    unfolding s_def by (rule sin_year_step_bounds)+
  have A: "0 \<le> A" and B: "0 \<le> B" using s unfolding A_def B_def by simp_all
  have "A + B = (25.325 * s) * (pi / 180)" unfolding A_def B_def by (simp add: algebra_simps)
  also have "\<dots> < (1 / 2) * (pi / 180)"
    using s by (intro mult_strict_right_mono) simp_all
  finally have AB: "A + B < pi / 360" by simp
  have "A \<le> pi" "B \<le> pi" using A B AB pi_gt_zero by linarith+
  with A B have "cos (A + B) \<le> cos A * cos B" by (intro cos_mult_ge_cos_add)
  moreover have "cos (pi / 360) < cos (A + B)"
    using A B AB by (intro cos_monotone_0_pi) simp_all
  ultimately show "cos (pi / 360) < cos A * cos B" by simp
  show "cos A * cos B \<le> 1"
    using cos_le_one [of "A + B"] cos_le_one [of "A - B"] by (simp add: cos_add cos_diff)
qed

lemma arcsin_near_one:
  assumes "cos (pi / 360) < c" "c \<le> 1"
  shows "89.5 < arcsin c * 180 / pi" "arcsin c * 180 / pi \<le> 90" "1350 < 1367 * c"
proof -
  have "cos (pi / 360) = sin (pi / 2 - pi / 360)" unfolding sin_diff by simp
  then have lo: "sin (pi / 2 - pi / 360) < c" using assms(1) by simp
  have "arcsin (sin (pi / 2 - pi / 360)) < arcsin c"
    using lo assms(2) by (intro arcsin_less_arcsin) simp_all
  moreover have "arcsin (sin (pi / 2 - pi / 360)) = pi / 2 - pi / 360"
    by (rule arcsin_sin) simp_all
  ultimately have "pi / 2 - pi / 360 < arcsin c" by simp
  then have "89.5 * pi < arcsin c * 180" by simp
  then show "89.5 < arcsin c * 180 / pi" by (simp only: pos_less_divide_eq pi_gt_zero)
  have "- 1 \<le> c" using assms(1) cos_ge_minus_one [of "pi / 360"] by linarith
  then have "arcsin c \<le> pi / 2" using assms(2) by (rule arcsin_ubound)
  then have "arcsin c * 180 \<le> 90 * pi" by simp
  then show "arcsin c * 180 / pi \<le> 90" by (simp add: pos_divide_le_eq)
  have "(pi / 360)\<^sup>2 \<le> (34 / 3600)\<^sup>2"
    using pi_less_34 by (intro power_mono) simp_all
  then have "1 - (34 / 3600)\<^sup>2 / 2 \<le> 1 - (pi / 360)\<^sup>2 / 2" by simp
  also have "\<dots> \<le> cos (pi / 360)" by (rule cos_ge_quadratic)
  also have "\<dots> < c" by (rule assms(1))
  finally have "1 - (34 / 3600)\<^sup>2 / 2 < c" .
  moreover have "(1350 :: real) / 1367 < 1 - (34 / 3600)\<^sup>2 / 2" by (simp add: power2_eq_square)
  ultimately have "1350 / 1367 < c" by simp
  then show "1350 < 1367 * c" by simp
qed

section \<open>The claims\<close>

text \<open>
  C1. Whenever \<open>computeSolarPotential\<close> returns a position whose altitude is at most 0,
  the irradiance of the position is 0 and its azimuth is \<open>NaN\<close>.
\<close>

theorem night_no_irradiance_no_azimuth:
  assumes "computeSolarPotential lat lon date = Inr p" "altitude p \<le> Fin 0"
  shows "irradiance p = Fin 0 \<and> azimuth p = NaN"
proof -
  have "\<not> altitude p > Fin 0" using assms(2) by (rule le_zero_not_gt)
  with assms(1) show ?thesis
    by (auto simp: computeSolarPotential_def Let_def split: if_splits js_value.splits)
qed

theorem night_no_irradiance_no_azimuth_witness:
  "\<exists>p. computeSolarPotential (Fin 0) (Fin 0) (DateObject (Some 1742601600000)) = Inr p
     \<and> altitude p \<le> Fin 0 \<and> irradiance p = Fin 0 \<and> azimuth p = NaN"
proof -
  let ?p = "\<lparr>declination = Fin 0, hourAngle = Fin (- 180), altitude = Fin (- 90), azimuth = NaN,
          zenith = Fin 180, irradiance = Fin 0\<rparr>"
  have r: "computeSolarPotential (Fin 0) (Fin 0) (DateObject (Some 1742601600000)) = Inr ?p"
    by (rule equinox_midnight_position)
  have a: "altitude ?p \<le> Fin 0" by simp
  from night_no_irradiance_no_azimuth [OF r a] r a show ?thesis by blast
qed

text \<open>
  C2. Whenever \<open>computeSolarPotential\<close> returns a position whose altitude is greater
  than 0, the irradiance of the position is greater than 0 and its azimuth is at least 0
  and less than 360.
\<close>

theorem daylight_irradiance_and_azimuth:
  assumes "computeSolarPotential lat lon date = Inr p" "altitude p > Fin 0"
  shows "irradiance p > Fin 0 \<and> Fin 0 \<le> azimuth p \<and> azimuth p < Fin 360"
proof -
  from assms obtain r z where "irradiance p = Fin (1367 * r)" "0 < r"
    "azimuth p = Fin z" "90 \<le> z" "z \<le> 270"
    by (rule daylight_fields)
  then show ?thesis by simp
qed

theorem daylight_irradiance_and_azimuth_witness:
  "\<exists>p. computeSolarPotential (Fin 0) (Fin 0) (DateObject (Some 1742644800000)) = Inr p
     \<and> altitude p > Fin 0 \<and> irradiance p > Fin 0 \<and> Fin 0 \<le> azimuth p \<and> azimuth p < Fin 360"
proof -
  let ?p = "\<lparr>declination = Fin 0, hourAngle = Fin 0, altitude = Fin 90, azimuth = Fin 180,
          zenith = Fin 0, irradiance = Fin 1367\<rparr>"
  have r: "computeSolarPotential (Fin 0) (Fin 0) (DateObject (Some 1742644800000)) = Inr ?p"
    by (rule equinox_noon_position)
  have a: "altitude ?p > Fin 0" by simp
  from daylight_irradiance_and_azimuth [OF r a] r a show ?thesis by blast
qed

lemma earliest_instant_position:
  "computeSolarPotential (Fin 0) (Fin 0) (DateObject (Some (- 8640000000000000))) =
     Inr \<lparr>declination = NaN, hourAngle = NaN, altitude = NaN, azimuth = NaN,
          zenith = NaN, irradiance = Fin 0\<rparr>"
  by (simp add: computeSolarPotential_def Number_isNaN_def getTime_def on_time_def day_of_earliest
      toRadians_def toDegrees_def clamp_def Math_max_def Math_min_def Let_def)

text \<open>
  The zenith of a returned position is computed as 90 minus its altitude: when the
  altitude is a finite number the two are strictly equal.
\<close>

lemma zenith_strict_eq_when_finite:
  assumes "computeSolarPotential lat lon date = Inr p" "Number_isFinite (altitude p)"
  shows "strict_eq (zenith p) (Fin 90 - altitude p)"
proof -
  have "zenith p = Fin 90 - altitude p"
    using assms(1)
    by (auto simp: computeSolarPotential_def Let_def split: if_splits js_value.splits prod.splits)
  then show ?thesis using assms(2) by (cases "altitude p") (auto simp: strict_eq_def)
qed

text \<open>
  C3. Every position returned for a valid latitude, longitude and instant is claimed to
  satisfy zenith = 90 - altitude, that is zenith + altitude = 90. At the earliest time
  value, -8640000000000000 (-271821-04-20T00:00:00Z), a valid date, the day of the year is
  \<open>NaN\<close> (see C9), the altitude and the zenith of the position returned are \<open>NaN\<close>, their sum
  is \<open>NaN\<close> and not 90, and the zenith is not strictly equal to 90 minus the altitude.
  Whenever the altitude is finite the zenith is strictly equal to 90 minus the altitude
  (\<open>zenith_strict_eq_when_finite\<close>).
\<close>

theorem earliest_year_zenith_not_complement:
  "\<exists>p. computeSolarPotential (Fin 0) (Fin 0) (DateObject (Some (- 8640000000000000))) = Inr p
     \<and> altitude p = NaN \<and> zenith p = NaN
     \<and> zenith p + altitude p \<noteq> Fin 90
     \<and> \<not> strict_eq (zenith p) (Fin 90 - altitude p)"
proof -
  let ?p = "\<lparr>declination = NaN, hourAngle = NaN, altitude = NaN, azimuth = NaN,
          zenith = NaN, irradiance = Fin 0\<rparr>"
  have "computeSolarPotential (Fin 0) (Fin 0) (DateObject (Some (- 8640000000000000))) = Inr ?p"
    by (rule earliest_instant_position)
  moreover have "altitude ?p = NaN \<and> zenith ?p = NaN \<and> zenith ?p + altitude ?p \<noteq> Fin 90
     \<and> \<not> strict_eq (zenith ?p) (Fin 90 - altitude ?p)"
    by (simp add: strict_eq_def)
  ultimately show ?thesis by blast
qed

text \<open>
  C4. At latitude 0, longitude 0 and 2025-03-21T12:00:00Z the position returned has a
  declination of absolute value less than 0.5, an altitude within 0.5 of 90, an hour angle
  of absolute value at most 0.1 and an irradiance greater than 1350.
\<close>

theorem march_21_noon_position:
  "\<exists>p d a h i. computeSolarPotential (Fin 0) (Fin 0) (DateObject (Some 1742558400000)) = Inr p
     \<and> declination p = Fin d \<and> \<bar>d\<bar> < 0.5
     \<and> altitude p = Fin a \<and> \<bar>90 - a\<bar> < 0.5
     \<and> hourAngle p = Fin h \<and> \<bar>h\<bar> \<le> 0.1
     \<and> irradiance p = Fin i \<and> 1350 < i"
proof -
  define s :: real where "s = sin (2 * pi / 365)"
  define A where "A = 23.45 * s * pi / 180"
  define B where "B = 1.875 * s * pi / 180"
  define c where "c = cos A * cos B"
  obtain p where r: "computeSolarPotential (Fin 0) (Fin 0) (DateObject (Some 1742558400000)) = Inr p"
    using march_21_noon_returns by blast
  have s: "0 < s" "s < 68 / 3650"
    unfolding s_def by (rule sin_year_step_bounds)+
  have c: "cos (pi / 360) < c" "c \<le> 1"
    unfolding c_def A_def B_def s_def by (rule near_zenith)+
  have "0 < cos (pi / 360)" by (intro cos_gt_zero_pi) simp_all
  with c have pos: "0 < c" by simp
  note b = arcsin_near_one [OF c]
  have "declination p = Fin (- (23.45 * s))" "hourAngle p = Fin (- (1.875 * s))"
    "altitude p = Fin (arcsin c * 180 / pi)" "irradiance p = Fin (1367 * c)"
    using march_21_noon_fields [OF r] pos unfolding c_def A_def B_def s_def by simp_all
  moreover have "\<bar>- (23.45 * s)\<bar> < 0.5" "\<bar>- (1.875 * s)\<bar> \<le> 0.1" using s by simp_all
  moreover have "\<bar>90 - arcsin c * 180 / pi\<bar> < 0.5" using b by simp
  ultimately show ?thesis using r b(3) by blast
qed

text \<open>
  C5. \<open>estimateEnergyProduced\<close> is claimed to reject every argument outside its range,
  \<open>NaN\<close> included. The area is checked with \<open>Number.isFinite\<close> and a \<open>NaN\<close> area is
  rejected, but the other four arguments are only compared with their bounds, and every
  comparison with \<open>NaN\<close> is false: a \<open>NaN\<close> efficiency, irradiance, period or
  performance ratio passes the checks and the call returns \<open>NaN\<close>.
\<close>

theorem estimateEnergyProduced_accepts_NaN:
  "estimateEnergyProduced (Fin 2) NaN (Fin 100) (Fin 24) (Some (Fin 0.8)) = Inr NaN
   \<and> estimateEnergyProduced (Fin 2) (Fin 0.2) NaN (Fin 24) (Some (Fin 0.8)) = Inr NaN
   \<and> estimateEnergyProduced (Fin 2) (Fin 0.2) (Fin 100) NaN (Some (Fin 0.8)) = Inr NaN
   \<and> estimateEnergyProduced (Fin 2) (Fin 0.2) (Fin 100) (Fin 24) (Some NaN) = Inr NaN
   \<and> estimateEnergyProduced NaN (Fin 0.2) (Fin 100) (Fin 24) (Some (Fin 0.8))
       = Inl Panel_area_must_be_ge_0"
  by (simp add: estimateEnergyProduced_def)




text \<open>
  C7. For a finite area that is at least 0, an efficiency and a performance ratio from 0
  to 1, an average irradiance that is at least 0 and a period greater than 0,
  \<open>estimateEnergyProduced\<close> returns
  area * efficiency * (averageIrradiance * periodHours / 1000) * performanceRatio; the call
  without a performance ratio uses 0.75; and the call with 2, 0.2, 5000/24, 24 and 0.8
  returns a value within 0.05 of 1.6.
\<close>

theorem estimateEnergyProduced_formula:
  assumes "Number_isFinite area" "Fin 0 \<le> area" "Fin 0 \<le> efficiency" "efficiency \<le> Fin 1"
    "Fin 0 \<le> averageIrradiance" "Fin 0 \<le> performanceRatio" "performanceRatio \<le> Fin 1"
    "Fin 0 < periodHours"
  shows "estimateEnergyProduced area efficiency averageIrradiance periodHours (Some performanceRatio)
          = Inr (area * efficiency * ((averageIrradiance * periodHours) / Fin 1000) * performanceRatio)
     \<and> estimateEnergyProduced area efficiency averageIrradiance periodHours None
          = Inr (area * efficiency * ((averageIrradiance * periodHours) / Fin 1000) * Fin 0.75)
     \<and> (\<exists>v. estimateEnergyProduced (Fin 2) (Fin 0.2) (Fin 5000 / Fin 24) (Fin 24) (Some (Fin 0.8))
            = Inr (Fin v) \<and> \<bar>v - 1.6\<bar> < 0.05)"
proof -
  obtain a where a: "area = Fin a" "0 \<le> a" using assms by (cases area) auto
  obtain e where e: "efficiency = Fin e" "0 \<le> e" "e \<le> 1" using assms by (cases efficiency) auto
  obtain r where r: "performanceRatio = Fin r" "0 \<le> r" "r \<le> 1"
    using assms by (cases performanceRatio) auto
  have i: "\<not> averageIrradiance < Fin 0" using assms(5) by (cases averageIrradiance) auto
  have h: "\<not> periodHours \<le> Fin 0" using assms(8) by (cases periodHours) auto
  have "estimateEnergyProduced area efficiency averageIrradiance periodHours (Some performanceRatio)
          = Inr (area * efficiency * ((averageIrradiance * periodHours) / Fin 1000) * performanceRatio)"
    using i h a(2) e(2,3) r(2,3) unfolding a(1) e(1) r(1)
    by (simp add: estimateEnergyProduced_def Let_def)
  moreover have "estimateEnergyProduced area efficiency averageIrradiance periodHours None
          = Inr (area * efficiency * ((averageIrradiance * periodHours) / Fin 1000) * Fin 0.75)"
    using i h a(2) e(2,3) unfolding a(1) e(1)
    by (simp add: estimateEnergyProduced_def Let_def)
  moreover have "estimateEnergyProduced (Fin 2) (Fin 0.2) (Fin 5000 / Fin 24) (Fin 24) (Some (Fin 0.8))
            = Inr (Fin 1.6) \<and> \<bar>1.6 - 1.6 :: real\<bar> < 0.05"
    by (simp add: estimateEnergyProduced_def)
  ultimately show ?thesis by blast
qed

theorem estimateEnergyProduced_formula_witness:
  "Number_isFinite (Fin 10) \<and> Fin 0 \<le> Fin 10 \<and> Fin 0 \<le> Fin 0.5 \<and> Fin 0.5 \<le> Fin 1
   \<and> Fin 0 \<le> Fin 200 \<and> Fin 0 \<le> Fin 0.8 \<and> Fin 0.8 \<le> Fin 1 \<and> Fin 0 < Fin 24
   \<and> estimateEnergyProduced (Fin 10) (Fin 0.5) (Fin 200) (Fin 24) (Some (Fin 0.8)) = Inr (Fin 19.2)
   \<and> estimateEnergyProduced (Fin 10) (Fin 0.5) (Fin 200) (Fin 24) None = Inr (Fin 18)"
  using estimateEnergyProduced_formula [of "Fin 10" "Fin 0.5" "Fin 200" "Fin 0.8" "Fin 24"]
  by simp

text \<open>
  C8. \<open>computeSolarPotential\<close> fails exactly when the latitude is not in [-90, 90], the
  longitude is not in [-180, 180], or the date is not a date object with a time value.
  The first check that fails decides the error, the three errors are different, and a
  failure returns no position.
\<close>

theorem computeSolarPotential_fails_iff:
  "((\<exists>err. computeSolarPotential lat lon date = Inl err) \<longleftrightarrow>
      \<not> (Fin (- 90) \<le> lat \<and> lat \<le> Fin 90) \<or> \<not> (Fin (- 180) \<le> lon \<and> lon \<le> Fin 180)
      \<or> \<not> (\<exists>t. date = DateObject (Some t)))
   \<and> (\<not> (Fin (- 90) \<le> lat \<and> lat \<le> Fin 90) \<longrightarrow>
        computeSolarPotential lat lon date = Inl Latitude_must_be_in_range)
   \<and> ((Fin (- 90) \<le> lat \<and> lat \<le> Fin 90) \<and> \<not> (Fin (- 180) \<le> lon \<and> lon \<le> Fin 180) \<longrightarrow>
        computeSolarPotential lat lon date = Inl Longitude_must_be_in_range)
   \<and> ((Fin (- 90) \<le> lat \<and> lat \<le> Fin 90) \<and> (Fin (- 180) \<le> lon \<and> lon \<le> Fin 180)
        \<and> \<not> (\<exists>t. date = DateObject (Some t)) \<longrightarrow>
        computeSolarPotential lat lon date = Inl Invalid_Date_object)
   \<and> Latitude_must_be_in_range \<noteq> Longitude_must_be_in_range
   \<and> Latitude_must_be_in_range \<noteq> Invalid_Date_object
   \<and> Longitude_must_be_in_range \<noteq> Invalid_Date_object"
proof -
  have eq: "computeSolarPotential lat lon date =
     (if \<not> (Fin (- 90) \<le> lat \<and> lat \<le> Fin 90) then Inl Latitude_must_be_in_range
      else if \<not> (Fin (- 180) \<le> lon \<and> lon \<le> Fin 180) then Inl Longitude_must_be_in_range
      else if \<not> (\<exists>t. date = DateObject (Some t)) then Inl Invalid_Date_object
      else Inr (projr (computeSolarPotential lat lon date)))"
  proof (cases date)
    case (DateObject tv)
    show ?thesis unfolding DateObject in_range_iff [symmetric]
      by (cases tv) (simp_all add: computeSolarPotential_def getTime_NaN Let_def split: prod.splits)
  next
    case NotADate
    show ?thesis unfolding NotADate in_range_iff [symmetric]
      by (simp add: computeSolarPotential_def)
  qed
  show ?thesis
    by (subst eq, subst (2) eq, subst (3) eq, subst (4) eq) simp
qed

theorem computeSolarPotential_fails_iff_witness:
  "computeSolarPotential (Fin (- 91)) (Fin 0) (DateObject (Some 0)) = Inl Latitude_must_be_in_range
   \<and> computeSolarPotential NaN (Fin 0) (DateObject (Some 0)) = Inl Latitude_must_be_in_range
   \<and> computeSolarPotential (Fin 0) (Fin (- 181)) (DateObject (Some 0)) = Inl Longitude_must_be_in_range
   \<and> computeSolarPotential (Fin 0) (Fin 0) NotADate = Inl Invalid_Date_object
   \<and> computeSolarPotential (Fin 0) (Fin 0) (DateObject None) = Inl Invalid_Date_object
   \<and> (\<exists>p. computeSolarPotential (Fin 0) (Fin 0) (DateObject (Some 0)) = Inr p)"
proof -
  have "\<exists>p. computeSolarPotential (Fin 0) (Fin 0) (DateObject (Some 0)) = Inr p"
    using computeSolarPotential_fails_iff [of "Fin 0" "Fin 0" "DateObject (Some 0)"]
    by (cases "computeSolarPotential (Fin 0) (Fin 0) (DateObject (Some 0))") auto
  then show ?thesis
    using computeSolarPotential_fails_iff [of "Fin (- 91)" "Fin 0" "DateObject (Some 0)"]
      computeSolarPotential_fails_iff [of NaN "Fin 0" "DateObject (Some 0)"]
      computeSolarPotential_fails_iff [of "Fin 0" "Fin (- 181)" "DateObject (Some 0)"]
      computeSolarPotential_fails_iff [of "Fin 0" "Fin 0" NotADate]
      computeSolarPotential_fails_iff [of "Fin 0" "Fin 0" "DateObject None"]
    by simp
qed

text \<open>
  C9. The position is claimed to hold defined numbers for every valid instant. The
  earliest time value, -8640000000000000 (-271821-04-20T00:00:00Z), is a valid date:
  \<open>getDayOfYear\<close> builds \<open>start\<close> from \<open>Date.UTC(-271821, 0, 0)\<close>, which is before the
  earliest time value, so \<open>start\<close> is an invalid date and the day of the year is \<open>NaN\<close>.
  \<open>clamp\<close> returns \<open>NaN\<close> on \<open>NaN\<close>, and the declination, the hour angle, the altitude and
  the zenith of the position returned are \<open>NaN\<close>. From the year -271820 on the day of the
  year is an integer (\<open>getDayOfYear_defined\<close>), and whenever it is finite the fields are
  finite and the altitude is from -90 to 90 (\<open>position_defined\<close>).
\<close>

theorem earliest_year_position_is_NaN:
  "computeSolarPotential (Fin 0) (Fin 0) (DateObject (Some (- 8640000000000000))) =
     Inr \<lparr>declination = NaN, hourAngle = NaN, altitude = NaN, azimuth = NaN,
          zenith = NaN, irradiance = Fin 0\<rparr>"
  by (simp add: computeSolarPotential_def Number_isNaN_def getTime_def on_time_def day_of_earliest
      toRadians_def toDegrees_def clamp_def Math_max_def Math_min_def Let_def)

text \<open>
  C10. Whenever \<open>computeSolarPotential\<close> returns a position whose altitude is greater
  than 0, the azimuth of the position is from 90 to 270: it is never in (270, 360) and
  never in [0, 90).
\<close>

theorem daylight_azimuth_southern_half:
  assumes "computeSolarPotential lat lon date = Inr p" "altitude p > Fin 0"
  shows "Fin 90 \<le> azimuth p \<and> azimuth p \<le> Fin 270
     \<and> \<not> (Fin 270 < azimuth p \<and> azimuth p < Fin 360)
     \<and> \<not> (Fin 0 \<le> azimuth p \<and> azimuth p < Fin 90)"
proof -
  from assms obtain r z where "azimuth p = Fin z" "90 \<le> z" "z \<le> 270"
    by (rule daylight_fields)
  then show ?thesis by simp
qed

theorem daylight_azimuth_southern_half_witness:
  "\<exists>p. computeSolarPotential (Fin 0) (Fin 0) (DateObject (Some 1742644800000)) = Inr p
     \<and> altitude p > Fin 0 \<and> Fin 90 \<le> azimuth p \<and> azimuth p \<le> Fin 270"
proof -
  let ?p = "\<lparr>declination = Fin 0, hourAngle = Fin 0, altitude = Fin 90, azimuth = Fin 180,
          zenith = Fin 0, irradiance = Fin 1367\<rparr>"
  have r: "computeSolarPotential (Fin 0) (Fin 0) (DateObject (Some 1742644800000)) = Inr ?p"
    by (rule equinox_noon_position)
  have a: "altitude ?p > Fin 0" by simp
  from daylight_azimuth_southern_half [OF r a] r a show ?thesis by blast
qed

end
